theory Spec2Isabelle
  imports Main "HOL-Library.Word"
begin

section \<open>JavaScript values\<close>

text \<open>
  The values that handlers pass to \<open>next\<close>, throw, or hand to \<open>send\<close>.  Only the
  distinctions the server code itself makes are kept: truthiness (\<open>if (err)\<close>),
  \<open>typeof payload === 'string'\<close>, \<open>Buffer.isBuffer\<close>, \<open>err instanceof Error\<close>,
  and \<open>undefined\<close>/\<open>null\<close>.
\<close>

type_synonym byte = "8 word"

datatype jsval =
    Undefined
  | Null
  | Bool bool
  | Num int
  | Str string
  | Buffer "byte list"
  | ErrorObj string
  | Obj "(string \<times> jsval) list"
  | Arr "jsval list"

fun truthy :: "jsval \<Rightarrow> bool" where
  "truthy Undefined = False"
| "truthy Null = False"
| "truthy (Bool b) = b"
| "truthy (Num n) = (n \<noteq> 0)"
| "truthy (Str s) = (s \<noteq> [])"
| "truthy (Buffer _) = True"
| "truthy (ErrorObj _) = True"
| "truthy (Obj _) = True"
| "truthy (Arr _) = True"

section \<open>Origin check of the upgrade handshake\<close>

text \<open>The \<open>cors.origin\<close> option: \<open>string | string[]\<close>.\<close>

datatype origin_cfg = OriginStr string | OriginList "string list"

text \<open>
  \<open>isOriginAllowed(originHeader, allowed)\<close>.  The header is \<open>string | undefined\<close>;
  \<open>!originHeader\<close> holds for \<open>undefined\<close> and for the empty string.
\<close>

definition isOriginAllowed :: "string option \<Rightarrow> origin_cfg \<Rightarrow> bool" where
  "isOriginAllowed originHeader allowed =
     (case originHeader of
        None \<Rightarrow> True
      | Some origin \<Rightarrow>
          if origin = [] \<or> allowed = OriginStr ''*'' then True
          else (case allowed of
                  OriginList xs \<Rightarrow> origin \<in> set xs
                | OriginStr s \<Rightarrow> s = origin))"

text \<open>
  The \<open>upgrade\<close> listener installed by \<open>listen\<close>: the socket is destroyed when the
  path is not the configured socket path, destroyed when the origin check fails, and
  handed to the WebSocket server otherwise.
\<close>

datatype upgrade_result = DestroyedPath | DestroyedOrigin | Upgraded

definition upgrade :: "string \<Rightarrow> origin_cfg \<Rightarrow> string \<Rightarrow> string option \<Rightarrow> upgrade_result" where
  "upgrade socketPath corsOrigin pathname origin =
     (if pathname \<noteq> socketPath then DestroyedPath
      else if \<not> isOriginAllowed origin corsOrigin then DestroyedOrigin
      else Upgraded)"

text \<open>What it means for a present origin to be on the allow-list.\<close>

fun origin_listed :: "string \<Rightarrow> origin_cfg \<Rightarrow> bool" where
  "origin_listed o' (OriginStr s) = (s = ''*'' \<or> s = o')"
| "origin_listed o' (OriginList xs) = (o' \<in> set xs)"

section \<open>Strings and objects\<close>

definition lower_char :: "char \<Rightarrow> char" where
  "lower_char c =
     (case map_of (zip ''ABCDEFGHIJKLMNOPQRSTUVWXYZ'' ''abcdefghijklmnopqrstuvwxyz'') c of
        Some d \<Rightarrow> d
      | None \<Rightarrow> c)"


definition toLowerCase :: "string \<Rightarrow> string" where
  "toLowerCase s = map lower_char s"


fun join :: "string \<Rightarrow> string list \<Rightarrow> string" where
  "join sep [] = []"
| "join sep [x] = x"
| "join sep (x # y # ys) = x @ sep @ join sep (y # ys)"

definition digit_char :: "nat \<Rightarrow> char" where
  "digit_char n = ''0123456789'' ! n"

function string_of_nat :: "nat \<Rightarrow> string" where
  "string_of_nat n = (if n < 10 then [digit_char n] else string_of_nat (n div 10) @ [digit_char (n mod 10)])"
  by pat_completeness auto
termination
  by (relation "measure id") auto

text \<open>
  A JavaScript object with string keys, as the list of its entries in insertion order:
  assigning to a key that is present keeps its place.  (Keys that are array indices,
  which JavaScript enumerates before the others, are not treated apart.)
\<close>

fun obj_set :: "string \<Rightarrow> 'v \<Rightarrow> (string \<times> 'v) list \<Rightarrow> (string \<times> 'v) list" where
  "obj_set k v [] = [(k, v)]"
| "obj_set k v ((k', v') # kvs) = (if k = k' then (k, v) # kvs else (k', v') # obj_set k v kvs)"

definition obj_get :: "(string \<times> 'v) list \<Rightarrow> string \<Rightarrow> 'v option" where
  "obj_get kvs k = map_of kvs k"

section \<open>SockressResponse\<close>

text \<open>
  The response object: status code, the \<open>sent\<close> latch, the header record, the cookie
  list, the mode it was constructed with and the CORS options.  The transport it writes
  to (\<open>mode.res\<close> of an HTTP request, \<open>mode.socket\<close> of a socket request) is
  represented by \<open>wire\<close>, the list of what has been written to it.
\<close>

record cors_options =
  cors_origin :: origin_cfg
  cors_credentials :: bool
  cors_methods :: "string list"
  cors_allowedHeaders :: "string list"
  cors_exposedHeaders :: "string list"
  cors_maxAge :: nat

datatype request_mode = HttpMode | SocketMode string

text \<open>The argument of \<open>res.end\<close>: a buffer, a string, nothing, or the buffer of
  \<open>JSON.stringify(payload)\<close>, kept as the payload.\<close>

datatype http_body = EndBuffer "byte list" | EndString string | EndEmpty | EndJson jsval

record http_out =
  out_statusCode :: int
  out_headers :: "(string \<times> string) list"
  out_set_cookie :: "string list option"
  out_body :: http_body

datatype msg_type = MsgResponse | MsgError

record socket_msg =
  msg_type :: msg_type
  msg_id :: "string option"
  msg_status :: "int option"
  msg_headers :: "(string \<times> string) list option"
  msg_body :: jsval
  msg_message :: "string option"
  msg_cookies :: "string list option"

datatype emission = HttpOut http_out | SocketOut socket_msg

record response =
  statusCode :: int
  sent :: bool
  headers :: "(string \<times> string) list"
  cookies :: "string list"
  mode :: request_mode
  cors :: cors_options
  allowedOrigin :: string
  wire :: "emission list"

text \<open>The constructor.\<close>

definition new_response :: "request_mode \<Rightarrow> cors_options \<Rightarrow> string \<Rightarrow> response" where
  "new_response m c origin =
     \<lparr>statusCode = 200, sent = False, headers = [], cookies = [], mode = m, cors = c,
      allowedOrigin = origin, wire = []\<rparr>"

text \<open>The CORS defaults of \<open>normalizeOptions\<close>.\<close>

definition default_cors :: cors_options where
  "default_cors =
     \<lparr>cors_origin = OriginStr ''*'', cors_credentials = True,
      cors_methods = [''GET'', ''POST'', ''PUT'', ''PATCH'', ''DELETE'', ''OPTIONS''],
      cors_allowedHeaders = [''Content-Type'', ''Authorization'', ''X-Requested-With''],
      cors_exposedHeaders = [], cors_maxAge = 600\<rparr>"

definition status :: "int \<Rightarrow> response \<Rightarrow> response" where
  "status code r = r\<lparr>statusCode := code\<rparr>"

definition set_header :: "string \<Rightarrow> string \<Rightarrow> response \<Rightarrow> response" where
  "set_header field v r = r\<lparr>headers := obj_set (toLowerCase field) v (headers r)\<rparr>"

definition cookie :: "string \<Rightarrow> response \<Rightarrow> response" where
  "cookie serialized r = r\<lparr>cookies := cookies r @ [serialized]\<rparr>"

definition buildHeaders :: "response \<Rightarrow> (string \<times> string) list" where
  "buildHeaders r =
     (obj_set ''access-control-max-age'' (string_of_nat (cors_maxAge (cors r)))
     (obj_set ''access-control-expose-headers'' (join '', '' (cors_exposedHeaders (cors r)))
     (obj_set ''access-control-allow-headers'' (join '', '' (cors_allowedHeaders (cors r)))
     (obj_set ''access-control-allow-methods'' (join '', '' (cors_methods (cors r)))
     (obj_set ''access-control-allow-credentials'' (if cors_credentials (cors r) then ''true'' else ''false'')
     (obj_set ''access-control-allow-origin'' (allowedOrigin r) (headers r)))))))"

definition no_content_type :: "response \<Rightarrow> bool" where
  "no_content_type r = (case obj_get (headers r) ''content-type'' of None \<Rightarrow> True | Some v \<Rightarrow> v = [])"

fun is_string :: "jsval \<Rightarrow> bool" where
  "is_string (Str _) = True"
| "is_string _ = False"

fun http_end :: "jsval \<Rightarrow> http_body" where
  "http_end (Buffer b) = EndBuffer b"
| "http_end (Str s) = EndString s"
| "http_end Undefined = EndEmpty"
| "http_end Null = EndEmpty"
| "http_end v = EndJson v"

fun is_json_payload :: "jsval \<Rightarrow> bool" where
  "is_json_payload (Buffer _) = False"
| "is_json_payload (Str _) = False"
| "is_json_payload Undefined = False"
| "is_json_payload Null = False"
| "is_json_payload _ = True"

text \<open>
  \<open>send\<close>, in the order of the source: the latch; the default content type of a string
  payload; the headers with the CORS headers; then either the write to the HTTP response
  (\<open>http_write\<close>: status, every header, \<open>Set-Cookie\<close> when there are cookies, the body
  by kind of payload, with the JSON content type when none was set) or the response
  message sent on the socket (\<open>socket_message\<close>).
\<close>

definition default_text_type :: "jsval \<Rightarrow> response \<Rightarrow> response" where
  "default_text_type payload r =
     (if no_content_type r \<and> is_string payload
      then set_header ''content-type'' ''text/plain; charset=utf-8'' r else r)"

definition http_write :: "jsval \<Rightarrow> response \<Rightarrow> http_out" where
  "http_write payload r =
     \<lparr>out_statusCode = statusCode r,
      out_headers =
        (if is_json_payload payload \<and> no_content_type r
         then obj_set ''content-type'' ''application/json; charset=utf-8'' (buildHeaders r)
         else buildHeaders r),
      out_set_cookie = (if cookies r \<noteq> [] then Some (cookies r) else None),
      out_body = http_end payload\<rparr>"

definition socket_message :: "jsval \<Rightarrow> string \<Rightarrow> response \<Rightarrow> socket_msg" where
  "socket_message payload requestId r =
     \<lparr>msg_type = MsgResponse,
      msg_id = Some requestId,
      msg_status = Some (statusCode r),
      msg_headers = Some (buildHeaders r),
      msg_body = payload,
      msg_message = None,
      msg_cookies = (if cookies r \<noteq> [] then Some (cookies r) else None)\<rparr>"

definition send :: "jsval \<Rightarrow> response \<Rightarrow> response" where
  "send payload r =
     (if sent r then r
      else
        let r' = default_text_type payload (r\<lparr>sent := True\<rparr>)
        in (case mode r' of
              HttpMode \<Rightarrow> r'\<lparr>wire := wire r' @ [HttpOut (http_write payload r')]\<rparr>
            | SocketMode requestId \<Rightarrow>
                r'\<lparr>wire := wire r' @ [SocketOut (socket_message payload requestId r')]\<rparr>))"

definition json :: "jsval \<Rightarrow> response \<Rightarrow> response" where
  "json payload r = send payload (set_header ''content-type'' ''application/json; charset=utf-8'' r)"

definition end_response :: "response \<Rightarrow> response" where
  "end_response r = send Undefined r"

definition isSent :: "response \<Rightarrow> bool" where
  "isSent r = sent r"

section \<open>The dispatch engine: \<open>runPipeline\<close>\<close>

text \<open>
  A handler is described by what it does when invoked: a finite sequence of calls on
  \<open>res\<close>, calls of \<open>next\<close> (with an argument, \<open>Undefined\<close> for \<open>next()\<close>) and
  possibly a final \<open>throw\<close>.  An error handler receives the pending error, so a
  handler's behaviour is a function of that argument; a normal handler is invoked with
  \<open>Undefined\<close>.  The sequence is run in order and a call of \<open>next\<close> runs to its end
  before the caller continues: this is a handler that is synchronous, or that awaits
  each \<open>next\<close> it calls.  A layer is invoked at most once in a run (the index only
  grows), so whatever a handler decides from the request or the response while it runs,
  what it did in that run is one such sequence, and a statement about all sequences is a
  statement about all such runs.

  \<open>next\<close> shares the index \<open>idx\<close> of \<open>runPipeline\<close> between all its calls, so the
  index is part of the state.  \<open>next\<close> is an \<open>async\<close> function whose body catches what
  the handler throws, so a call of \<open>next\<close> never throws into its caller.  \<open>invoked\<close>
  records each invocation of a layer's handler (position in the stack and error
  argument); nothing reads it.  The stack is the result of \<open>composeStack\<close> for the
  request.
\<close>

datatype action =
    Status int
  | SetHeader string string
  | Cookie string
  | Send jsval
  | Json jsval
  | End
  | CallNext jsval
  | Throw jsval

record layer =
  handler :: "jsval \<Rightarrow> action list"
  isErrorHandler :: bool

datatype outcome = Returned | Thrown jsval

record pstate =
  idx :: nat
  res :: response
  invoked :: "(nat \<times> jsval) list"

fun error_details :: "jsval \<Rightarrow> jsval" where
  "error_details (ErrorObj m) = Str m"
| "error_details v = v"

definition renderError :: "jsval \<Rightarrow> response \<Rightarrow> response" where
  "renderError err r =
     (if isSent r then r
      else json (Obj [(''error'', Str ''Internal Server Error''), (''details'', error_details err)])
             (status 500 r))"

fun res_action :: "action \<Rightarrow> response \<Rightarrow> response" where
  "res_action (Status c) r = status c r"
| "res_action (SetHeader k v) r = set_header k v r"
| "res_action (Cookie c) r = cookie c r"
| "res_action (Send p) r = send p r"
| "res_action (Json p) r = json p r"
| "res_action End r = end_response r"
| "res_action _ r = r"

function next_fn :: "layer list \<Rightarrow> jsval \<Rightarrow> pstate \<Rightarrow> pstate"
  and run_handler :: "layer list \<Rightarrow> action list \<Rightarrow> pstate \<Rightarrow> outcome \<times> pstate"
where
  "next_fn stack err st =
     (if length stack \<le> idx st then
        (if truthy err then st\<lparr>idx := idx st + 1, res := renderError err (res st)\<rparr>
         else if \<not> isSent (res st)
           then st\<lparr>idx := idx st + 1,
                   res := json (Obj [(''error'', Str ''Not Found'')]) (status 404 (res st))\<rparr>
         else st\<lparr>idx := idx st + 1\<rparr>)
      else if truthy err then
        (if isErrorHandler (stack ! idx st) then
           (case run_handler stack (handler (stack ! idx st) err)
                   (st\<lparr>idx := idx st + 1, invoked := invoked st @ [(idx st, err)]\<rparr>) of
              (Returned, st') \<Rightarrow> st'
            | (Thrown e, st') \<Rightarrow> next_fn stack e st')
         else next_fn stack err (st\<lparr>idx := idx st + 1\<rparr>))
      else if isErrorHandler (stack ! idx st) then
        next_fn stack Undefined (st\<lparr>idx := idx st + 1\<rparr>)
      else
        (case run_handler stack (handler (stack ! idx st) Undefined)
                (st\<lparr>idx := idx st + 1, invoked := invoked st @ [(idx st, Undefined)]\<rparr>) of
           (Returned, st') \<Rightarrow> st'
         | (Thrown e, st') \<Rightarrow> next_fn stack e st'))"
| "run_handler stack [] st = (Returned, st)"
| "run_handler stack (Throw v # as) st = (Thrown v, st)"
| "run_handler stack (CallNext e # as) st = run_handler stack as (next_fn stack e st)"
| "run_handler stack (Status c # as) st = run_handler stack as (st\<lparr>res := status c (res st)\<rparr>)"
| "run_handler stack (SetHeader k v # as) st =
     run_handler stack as (st\<lparr>res := set_header k v (res st)\<rparr>)"
| "run_handler stack (Cookie c # as) st = run_handler stack as (st\<lparr>res := cookie c (res st)\<rparr>)"
| "run_handler stack (Send p # as) st = run_handler stack as (st\<lparr>res := send p (res st)\<rparr>)"
| "run_handler stack (Json p # as) st = run_handler stack as (st\<lparr>res := json p (res st)\<rparr>)"
| "run_handler stack (End # as) st = run_handler stack as (st\<lparr>res := end_response (res st)\<rparr>)"
  by pat_completeness auto

text \<open>
  Termination: every call of \<open>next\<close> advances the shared index, and no call lowers it,
  so \<open>next\<close> reaches a layer at most once per position of the stack.
\<close>

lemma idx_mono_dom:
  "next_fn_run_handler_dom (Inl (stack, err, st)) \<Longrightarrow> idx st \<le> idx (next_fn stack err st)"
  "next_fn_run_handler_dom (Inr (stack, acts, st)) \<Longrightarrow>
     idx st \<le> idx (snd (run_handler stack acts st))"
proof (induct stack err st and stack acts st rule: next_fn_run_handler.pinduct)
  case (1 stack err st)
  then show ?case
    by (auto simp: next_fn.psimps split: prod.splits outcome.splits)
qed (auto simp: run_handler.psimps)

lemma idx_mono_dom_pair:
  "next_fn_run_handler_dom (Inr (stack, acts, st)) \<Longrightarrow> (x, y) = run_handler stack acts st
     \<Longrightarrow> idx st \<le> idx y"
  using idx_mono_dom(2)[of stack acts st] by (metis snd_conv)

termination next_fn
  apply (relation "measures
      [\<lambda>x. case x of Inl (stack, err, st) \<Rightarrow> length stack + 1 - idx st
                   | Inr (stack, acts, st) \<Rightarrow> length stack + 1 - idx st,
       \<lambda>x. case x of Inl _ \<Rightarrow> 0 | Inr (stack, acts, st) \<Rightarrow> Suc (length acts)]")
  apply (auto dest!: idx_mono_dom_pair idx_mono_dom(1))
  done

declare next_fn.simps [simp del]

definition runPipeline :: "layer list \<Rightarrow> response \<Rightarrow> pstate" where
  "runPipeline stack r = next_fn stack Undefined \<lparr>idx = 0, res = r, invoked = []\<rparr>"

section \<open>Multipart bodies on the socket transport\<close>

text \<open>
  A \<open>FormData\<close> is its list of entries, in insertion order; a value is a string or a
  file.  \<open>name\<close>, \<open>type\<close> and \<open>lastModified\<close> of a file may be missing (a \<open>Blob\<close>).
\<close>

record file_obj =
  file_name :: "string option"
  file_type :: "string option"
  file_size :: nat
  file_lastModified :: "int option"
  file_bytes :: "byte list"

datatype form_value = FString string | FFile file_obj

type_synonym form_data = "(string \<times> form_value) list"

text \<open>A field of the envelope: \<open>string | string[]\<close>.\<close>

datatype field_value = One string | Many "string list"

fun field_truthy :: "field_value \<Rightarrow> bool" where
  "field_truthy (One s) = (s \<noteq> [])"
| "field_truthy (Many _) = True"

text \<open>
  \<open>SerializedSocketFile\<close>, as the server declares it: everything but \<open>data\<close> optional,
  and \<open>data\<close> checked to be a string before it is decoded.
\<close>

record serialized_file =
  sf_fieldName :: "string option"
  sf_name :: "string option"
  sf_type :: "string option"
  sf_size :: "nat option"
  sf_data :: jsval
  sf_lastModified :: "int option"

record form_envelope =
  env_fields :: "(string \<times> field_value) list option"
  env_files :: "(string \<times> serialized_file list) list option"

text \<open>
  A body on the socket: \<open>{__formData: envelope}\<close>, or any other value.  The frame is
  the JSON text of the message, and parsing it gives back the envelope that was
  serialized, so the server's functions take what the client's functions return.
\<close>

datatype socket_body = FormEnvelope form_envelope | PlainBody jsval

datatype client_body = BodyFormData form_data | BodyValue jsval

subsection \<open>Client: \<open>serializeFormData\<close>\<close>

text \<open>The string branch of the loop: \<open>if (fields[key]) ... else fields[key] = value\<close>.\<close>

definition add_field :: "string \<Rightarrow> string \<Rightarrow> (string \<times> field_value) list \<Rightarrow> (string \<times> field_value) list" where
  "add_field key v flds =
     (case obj_get flds key of
        Some existing \<Rightarrow>
          (if field_truthy existing then
             obj_set key (case existing of Many xs \<Rightarrow> Many (xs @ [v]) | One s \<Rightarrow> Many [s, v]) flds
           else obj_set key (One v) flds)
      | None \<Rightarrow> obj_set key (One v) flds)"

text \<open>The file branch: \<open>if (!files[key]) files[key] = []; files[key].push({...})\<close>.\<close>

definition add_file ::
  "(byte list \<Rightarrow> string) \<Rightarrow> string \<Rightarrow> file_obj \<Rightarrow> (string \<times> serialized_file list) list
     \<Rightarrow> (string \<times> serialized_file list) list" where
  "add_file arrayBufferToBase64 key f files =
     (let encoded = arrayBufferToBase64 (file_bytes f);
          entry = \<lparr>sf_fieldName = Some key,
                   sf_name = Some (case file_name f of Some n \<Rightarrow> n | None \<Rightarrow> ''file''),
                   sf_type = Some (case file_type f of Some t \<Rightarrow> t | None \<Rightarrow> ''application/octet-stream''),
                   sf_size = Some (file_size f),
                   sf_data = Str encoded,
                   sf_lastModified = file_lastModified f\<rparr>
      in obj_set key ((case obj_get files key of Some es \<Rightarrow> es | None \<Rightarrow> []) @ [entry]) files)"

fun serialize_entries ::
  "(byte list \<Rightarrow> string) \<Rightarrow> form_data \<Rightarrow> (string \<times> field_value) list \<Rightarrow> (string \<times> serialized_file list) list
     \<Rightarrow> (string \<times> field_value) list \<times> (string \<times> serialized_file list) list" where
  "serialize_entries enc [] flds files = (flds, files)"
| "serialize_entries enc ((key, FString v) # entries) flds files =
     serialize_entries enc entries (add_field key v flds) files"
| "serialize_entries enc ((key, FFile f) # entries) flds files =
     serialize_entries enc entries flds (add_file enc key f files)"

definition serializeFormData :: "(byte list \<Rightarrow> string) \<Rightarrow> form_data \<Rightarrow> form_envelope" where
  "serializeFormData enc formData =
     (case serialize_entries enc formData [] [] of
        (flds, files) \<Rightarrow> \<lparr>env_fields = Some flds, env_files = Some files\<rparr>)"

definition serializeBodyForSocket :: "(byte list \<Rightarrow> string) \<Rightarrow> client_body \<Rightarrow> socket_body" where
  "serializeBodyForSocket enc body =
     (case body of
        BodyFormData formData \<Rightarrow> FormEnvelope (serializeFormData enc formData)
      | BodyValue v \<Rightarrow> PlainBody v)"

subsection \<open>Server: \<open>normalizeBodyPayload\<close>, \<open>convertSerializedFiles\<close>, \<open>pickPrimaryFile\<close>\<close>

record uploaded_file =
  up_fieldName :: string
  up_name :: string
  up_type :: string
  up_size :: nat
  up_buffer :: "byte list"
  up_lastModified :: "int option"

datatype request_body = Fields "(string \<times> field_value) list" | Value jsval

record normalized_body =
  nb_body :: request_body
  nb_files :: "(string \<times> uploaded_file list) list option"

fun str_of :: "jsval \<Rightarrow> string" where
  "str_of (Str s) = s"
| "str_of _ = []"

definition convert_entry :: "(string \<Rightarrow> byte list) \<Rightarrow> string \<Rightarrow> serialized_file \<Rightarrow> uploaded_file" where
  "convert_entry fromBase64 field entry =
     \<lparr>up_fieldName = field,
      up_name = (case sf_name entry of Some n \<Rightarrow> n | None \<Rightarrow> ''file''),
      up_type = (case sf_type entry of Some t \<Rightarrow> t | None \<Rightarrow> ''application/octet-stream''),
      up_size = (case sf_size entry of Some n \<Rightarrow> n
                 | None \<Rightarrow> length (fromBase64 (str_of (sf_data entry)))),
      up_buffer = fromBase64 (str_of (sf_data entry)),
      up_lastModified = sf_lastModified entry\<rparr>"

fun convert_loop ::
  "(string \<Rightarrow> byte list) \<Rightarrow> (string \<times> serialized_file list) list \<Rightarrow> (string \<times> uploaded_file list) list
     \<Rightarrow> (string \<times> uploaded_file list) list" where
  "convert_loop dec [] files = files"
| "convert_loop dec ((field, entries) # rest) files =
     convert_loop dec rest
       (obj_set field (map (convert_entry dec field) (filter (\<lambda>e. is_string (sf_data e)) entries)) files)"

definition convertSerializedFiles ::
  "(string \<Rightarrow> byte list) \<Rightarrow> (string \<times> serialized_file list) list \<Rightarrow> (string \<times> uploaded_file list) list" where
  "convertSerializedFiles dec serialized = convert_loop dec serialized []"

definition normalizeBodyPayload :: "(string \<Rightarrow> byte list) \<Rightarrow> socket_body \<Rightarrow> normalized_body" where
  "normalizeBodyPayload dec v =
     (case v of
        FormEnvelope form \<Rightarrow>
          (let files = convertSerializedFiles dec (case env_files form of Some fs \<Rightarrow> fs | None \<Rightarrow> []);
               flds = (case env_fields form of Some fs \<Rightarrow> fs | None \<Rightarrow> [])
           in \<lparr>nb_body = Fields flds, nb_files = (if files \<noteq> [] then Some files else None)\<rparr>)
      | PlainBody x \<Rightarrow> \<lparr>nb_body = Value (if x = Undefined then Obj [] else x), nb_files = None\<rparr>)"


subsection \<open>What the round trip should give\<close>

text \<open>
  The field map of a \<open>FormData\<close>: every name that has string values, in first-seen
  order, with its values in order (one value as a string, several as an array).
\<close>

fun string_values :: "string \<Rightarrow> form_data \<Rightarrow> string list" where
  "string_values key [] = []"
| "string_values key ((k, FString v) # es) = (if k = key then v # string_values key es else string_values key es)"
| "string_values key ((k, FFile f) # es) = string_values key es"

fun string_keys :: "form_data \<Rightarrow> string list" where
  "string_keys [] = []"
| "string_keys ((k, FString v) # es) = k # filter (\<lambda>k'. k' \<noteq> k) (string_keys es)"
| "string_keys ((k, FFile f) # es) = string_keys es"

definition expected_fields :: "form_data \<Rightarrow> (string \<times> field_value) list" where
  "expected_fields formData =
     map (\<lambda>k. (k, case string_values k formData of [v] \<Rightarrow> One v | vs \<Rightarrow> Many vs)) (string_keys formData)"

section \<open>Requests arriving on a socket: \<open>handleSocket\<close>\<close>



datatype transport = ViaHttp | ViaSocket






section \<open>Path matcher: \<open>buildMatcher\<close>\<close>

















subsection \<open>Percent-decoding\<close>






section \<open>The client: \<open>SockressClient\<close>\<close>

text \<open>
  The client is event-driven: socket events, timers and promise settlements arrive one
  at a time, and each runs one of the functions below to completion on the client's
  state.  What a function does to the outside (listeners called, promises settled,
  timers set and cleared, frames sent) is appended to \<open>effects\<close>.

  \<open>wsFactory\<close> is absent, or a function that either throws or returns a socket that
  is still connecting (\<open>readyState = 0\<close>); \<open>ws\<close> is the \<open>readyState\<close> of the current
  socket, if there is one.  Intervals, delays and the attempt counter are integers.
\<close>

datatype ws_factory = FactoryThrows string | FactoryReturns

record client_options =
  opt_headers :: "(string \<times> string) list"
  opt_timeout :: int
  opt_reconnectInterval :: int
  opt_maxReconnectInterval :: int
  opt_preferSocket :: bool
  opt_wsFactory :: "ws_factory option"

text \<open>\<open>SocketRequestPayload\<close>\<close>

record socket_request_payload =
  sp_id :: string
  sp_method :: string
  sp_path :: string
  sp_headers :: "(string \<times> string) list"
  sp_query :: "(string \<times> field_value) list option"
  sp_body :: socket_body

text \<open>\<open>SockressClientResponse\<close>: the same shape from either transport.\<close>

record client_response =
  cr_status :: int
  cr_ok :: bool
  cr_headers :: "(string \<times> string) list"
  cr_body :: jsval

datatype client_event = EvOpen | EvClose | EvError | EvReconnect | EvMessage

datatype timer = ReconnectTimer | RequestTimer string

datatype effect =
    Emit client_event
  | RejectPending string string
  | ResolvePending string client_response
  | SetTimeout timer int
  | ClearTimeout timer
  | WsSend socket_request_payload
  | WsClose

record client =
  ws :: "nat option"
  reconnectAttempts :: int
  pending :: "string list"
  queue :: "socket_request_payload list"
  socketEnabled :: bool
  closeRequested :: bool
  effects :: "effect list"

definition emit :: "client_event \<Rightarrow> client \<Rightarrow> client" where
  "emit ev c = c\<lparr>effects := effects c @ [Emit ev]\<rparr>"

text \<open>\<open>clearPending\<close>: every pending entry has a timeout, which is cleared.\<close>

definition clearPending :: "string \<Rightarrow> client \<Rightarrow> client" where
  "clearPending rid c =
     (let c' = (if rid \<in> set (pending c)
                then c\<lparr>effects := effects c @ [ClearTimeout (RequestTimer rid)]\<rparr> else c)
      in c'\<lparr>pending := removeAll rid (pending c')\<rparr>)"

text \<open>\<open>rejectAllPending\<close>: the loop over the entries of the pending map.\<close>

fun reject_each :: "string \<Rightarrow> string list \<Rightarrow> client \<Rightarrow> client" where
  "reject_each msg [] c = c"
| "reject_each msg (rid # ids) c =
     reject_each msg ids
       ((clearPending rid c)\<lparr>effects := effects (clearPending rid c) @ [RejectPending rid msg]\<rparr>)"

definition rejectAllPending :: "string \<Rightarrow> client \<Rightarrow> client" where
  "rejectAllPending msg c = reject_each msg (pending c) c"

definition scheduleReconnect :: "client_options \<Rightarrow> client \<Rightarrow> client" where
  "scheduleReconnect opts c =
     (if \<not> socketEnabled c \<or> opt_wsFactory opts = None then c
      else
        let attempts = reconnectAttempts c + 1;
            delay = min (opt_reconnectInterval opts * attempts) (opt_maxReconnectInterval opts)
        in c\<lparr>reconnectAttempts := attempts,
             effects := effects c @ [SetTimeout ReconnectTimer delay]\<rparr>)"

definition flushQueue :: "client \<Rightarrow> client" where
  "flushQueue c =
     (if ws c \<noteq> Some 1 then c
      else c\<lparr>queue := [], effects := effects c @ map WsSend (queue c)\<rparr>)"

text \<open>The four listeners that \<open>attachSocketHandlers\<close> installs.\<close>

definition handleOpen :: "client \<Rightarrow> client" where
  "handleOpen c = flushQueue (emit EvOpen (c\<lparr>reconnectAttempts := 0\<rparr>))"

definition handleError :: "client \<Rightarrow> client" where
  "handleError c = rejectAllPending ''Socket error'' (emit EvError c)"

definition handleClose :: "client_options \<Rightarrow> client \<Rightarrow> client" where
  "handleClose opts c =
     scheduleReconnect opts (rejectAllPending ''Socket closed'' (emit EvClose c))"

text \<open>\<open>connect\<close>; \<open>Inl\<close> is the error the factory threw.\<close>

definition connect :: "client_options \<Rightarrow> client \<Rightarrow> string + client" where
  "connect opts c =
     (case opt_wsFactory opts of
        None \<Rightarrow> Inr (c\<lparr>socketEnabled := False\<rparr>)
      | Some factory \<Rightarrow>
          if ws c = Some 1 then Inr c
          else (case factory of
                  FactoryThrows e \<Rightarrow> Inl e
                | FactoryReturns \<Rightarrow> Inr (c\<lparr>ws := Some 0\<rparr>)))"

text \<open>The callback of the reconnect timer.\<close>

definition reconnect_fired :: "client_options \<Rightarrow> client \<Rightarrow> client" where
  "reconnect_fired opts c =
     (case connect opts (emit EvReconnect c) of Inl e \<Rightarrow> emit EvReconnect c | Inr c' \<Rightarrow> c')"


definition close :: "client \<Rightarrow> client" where
  "close c =
     (if closeRequested c then c
      else
        let c1 = c\<lparr>closeRequested := True, socketEnabled := False\<rparr>;
            c2 = (if ws c1 \<noteq> None then c1\<lparr>ws := None, effects := effects c1 @ [WsClose]\<rparr> else c1);
            c3 = c2\<lparr>queue := []\<rparr>
        in rejectAllPending ''Client closed'' c3)"

subsection \<open>Requests\<close>














subsection \<open>The HTTP transport: \<open>sendViaHttp\<close>\<close>











subsection \<open>Messages from the server: \<open>handleSocketMessage\<close>\<close>




section \<open>Observing a run\<close>

text \<open>What was written to the transport: status, body and correlation id of a message.\<close>

fun emission_status :: "emission \<Rightarrow> int option" where
  "emission_status (HttpOut h) = Some (out_statusCode h)"
| "emission_status (SocketOut m) = msg_status m"

fun emission_payload :: "emission \<Rightarrow> http_body" where
  "emission_payload (HttpOut h) = out_body h"
| "emission_payload (SocketOut m) = http_end (msg_body m)"


text \<open>
  A handler that passes on: in its run it sends nothing, throws nothing, reports no error
  to \<open>next\<close>, and calls \<open>next\<close> at least once.  (An error handler is not invoked
  while no error is pending, so what it would do does not matter.)
\<close>

fun quiet_action :: "action \<Rightarrow> bool" where
  "quiet_action (Send _) = False"
| "quiet_action (Json _) = False"
| "quiet_action End = False"
| "quiet_action (Throw _) = False"
| "quiet_action (CallNext e) = (\<not> truthy e)"
| "quiet_action _ = True"

fun is_next :: "action \<Rightarrow> bool" where
  "is_next (CallNext _) = True"
| "is_next _ = False"

definition passes_on :: "layer \<Rightarrow> bool" where
  "passes_on l = (isErrorHandler l \<or>
      (list_all quiet_action (handler l Undefined) \<and> list_ex is_next (handler l Undefined)))"

text \<open>The two responses the engine itself writes.\<close>

definition not_found_body :: jsval where
  "not_found_body = Obj [(''error'', Str ''Not Found'')]"

definition is_404 :: "emission \<Rightarrow> bool" where
  "is_404 e = (emission_status e = Some 404 \<and> emission_payload e = EndJson not_found_body)"

definition server_error_body :: "jsval \<Rightarrow> jsval" where
  "server_error_body err = Obj [(''error'', Str ''Internal Server Error''), (''details'', error_details err)]"

definition is_500 :: "jsval \<Rightarrow> emission \<Rightarrow> bool" where
  "is_500 err e = (emission_status e = Some 500 \<and> emission_payload e = EndJson (server_error_body err))"

text \<open>An invocation is proper when an error handler was invoked with a pending
  (truthy) error, or a normal handler without one.\<close>

fun proper_call :: "layer list \<Rightarrow> nat \<times> jsval \<Rightarrow> bool" where
  "proper_call stack (i, e) = (i < length stack \<and> isErrorHandler (stack ! i) = truthy e)"


text \<open>The latch and the transport agree: nothing written before \<open>sent\<close> is set, one
  message after; and the two states a run without handler output is in.\<close>

definition latched :: "response \<Rightarrow> bool" where
  "latched r = (if sent r then length (wire r) = 1 else wire r = [])"

definition clean :: "response \<Rightarrow> bool" where
  "clean r = (\<not> sent r \<and> wire r = [])"

definition done404 :: "response \<Rightarrow> bool" where
  "done404 r = (sent r \<and> (\<exists>e. wire r = [e] \<and> is_404 e))"

text \<open>Two layers used as concrete inputs: a middleware that sets a header and passes
  on, and an error handler that answers with the error.\<close>

definition logger :: layer where
  "logger = \<lparr>handler = (\<lambda>_. [SetHeader ''X-Seen'' ''1'', CallNext Undefined]), isErrorHandler = False\<rparr>"

definition on_error :: layer where
  "on_error = \<lparr>handler = (\<lambda>e. [Status 500, Json (error_details e)]), isErrorHandler = True\<rparr>"

text \<open>Three more layers: one that answers and then throws, one that throws before
  anything was sent, and a route handler that answers.\<close>

definition send_then_throw :: layer where
  "send_then_throw =
     \<lparr>handler = (\<lambda>_. [Send (Str ''ok''), Throw (ErrorObj ''boom'')]), isErrorHandler = False\<rparr>"

definition thrower :: layer where
  "thrower = \<lparr>handler = (\<lambda>_. [Status 201, Throw (ErrorObj ''boom'')]), isErrorHandler = False\<rparr>"

definition responder :: layer where
  "responder = \<lparr>handler = (\<lambda>_. [Send (Str ''never reached'')]), isErrorHandler = False\<rparr>"

text \<open>What \<open>rejectAllPending\<close> does for a list of ids, and the delays of the
  reconnect timers among some effects.\<close>

definition rejections :: "string \<Rightarrow> string list \<Rightarrow> effect list" where
  "rejections msg ids = concat (map (\<lambda>rid. [ClearTimeout (RequestTimer rid), RejectPending rid msg]) ids)"

definition reconnect_timers :: "effect list \<Rightarrow> int list" where
  "reconnect_timers es = List.map_filter (\<lambda>e. case e of SetTimeout ReconnectTimer d \<Rightarrow> Some d | _ \<Rightarrow> None) es"

text \<open>A client configuration, clients and a request used as concrete inputs.\<close>

definition client_opts0 :: client_options where
  "client_opts0 =
     \<lparr>opt_headers = [], opt_timeout = 15000, opt_reconnectInterval = 1000,
      opt_maxReconnectInterval = 15000, opt_preferSocket = True,
      opt_wsFactory = Some FactoryReturns\<rparr>"

definition client0 :: client where
  "client0 =
     \<lparr>ws = Some 1, reconnectAttempts = 0, pending = [''r1''], queue = [],
      socketEnabled = True, closeRequested = False, effects = []\<rparr>"





section \<open>Properties\<close>

subsection \<open>The response latch and the engine\<close>

lemma pipeline_res_invariant:
  assumes step: "\<And>a r. I r \<Longrightarrow> I (res_action a r)"
  shows "I (res st) \<Longrightarrow> I (res (next_fn stack err st))"
    and "I (res st) \<Longrightarrow> I (res (snd (run_handler stack acts st)))"
proof -
  have st: "I (status c r)" if "I r" for c r using step[OF that, of "Status c"] by simp
  have hd: "I (set_header k v r)" if "I r" for k v r using step[OF that, of "SetHeader k v"] by simp
  have ck: "I (cookie c r)" if "I r" for c r using step[OF that, of "Cookie c"] by simp
  have sd: "I (send p r)" if "I r" for p r using step[OF that, of "Send p"] by simp
  have js: "I (json p r)" if "I r" for p r using step[OF that, of "Json p"] by simp
  have en: "I (end_response r)" if "I r" for r using step[OF that, of "End"] by simp
  have re: "I (renderError e r)" if "I r" for e r
    using that st js by (simp add: renderError_def)
  show "I (res st) \<Longrightarrow> I (res (next_fn stack err st))"
    and "I (res st) \<Longrightarrow> I (res (snd (run_handler stack acts st)))"
  proof (induct stack err st and stack acts st rule: next_fn_run_handler.induct)
    case (1 stack err st)
    show ?case
      apply (subst next_fn.simps)
      using 1 re st js
      by (auto split: prod.splits outcome.splits)
  qed (simp_all add: st hd ck sd js en)
qed

lemma wire_send: "\<not> sent r \<Longrightarrow> \<exists>e. wire (send p r) = wire r @ [e]
    \<and> emission_status e = Some (statusCode r) \<and> emission_payload e = http_end p"
  by (simp add: send_def Let_def default_text_type_def set_header_def http_write_def
      socket_message_def split: request_mode.splits)

lemma wire_json: "\<not> sent r \<Longrightarrow> \<exists>e. wire (json p r) = wire r @ [e]
    \<and> emission_status e = Some (statusCode r) \<and> emission_payload e = http_end p"
  using wire_send[of "set_header ''content-type'' ''application/json; charset=utf-8'' r" p]
  by (simp add: json_def set_header_def)

lemma sent_send: "sent (send p r)"
  by (simp add: send_def Let_def default_text_type_def set_header_def http_write_def
      socket_message_def split: request_mode.splits)

lemma sent_json: "sent (json p r)"
  by (simp add: json_def sent_send)

lemma send_when_sent: "sent r \<Longrightarrow> send p r = r"
  by (simp add: send_def)

lemma res_action_when_sent: "sent r \<Longrightarrow> sent (res_action a r) \<and> wire (res_action a r) = wire r"
  by (cases a)
     (simp_all add: status_def set_header_def cookie_def json_def end_response_def send_def)

lemma latch_next_fn:
  "sent (res st) \<Longrightarrow> sent (res (next_fn stack err st)) \<and> wire (res (next_fn stack err st)) = wire (res st)"
  using pipeline_res_invariant(1)[where I = "\<lambda>r. sent r \<and> wire r = wire (res st)" and st = st]
  by (simp add: res_action_when_sent)

lemma latch_run_handler:
  "sent (res st) \<Longrightarrow> sent (res (snd (run_handler stack acts st)))
      \<and> wire (res (snd (run_handler stack acts st))) = wire (res st)"
  using pipeline_res_invariant(2)[where I = "\<lambda>r. sent r \<and> wire r = wire (res st)" and st = st]
  by (simp add: res_action_when_sent)

lemma latched_res_action: "latched r \<Longrightarrow> latched (res_action a r)"
proof (cases "sent r")
  case True
  then show "latched r \<Longrightarrow> latched (res_action a r)"
    using res_action_when_sent[of r a] by (simp add: latched_def)
next
  case False
  assume "latched r"
  with False have w: "wire r = []" by (simp add: latched_def)
  show "latched (res_action a r)"
  proof (cases a)
    case (Send p)
    then show ?thesis using wire_send[OF False, of p] w by (auto simp: latched_def sent_send)
  next
    case (Json p)
    then show ?thesis using wire_json[OF False, of p] w by (auto simp: latched_def sent_json)
  next
    case End
    then show ?thesis using wire_send[OF False, of Undefined] w
      by (auto simp: latched_def sent_send end_response_def)
  qed (use False w in \<open>simp_all add: latched_def status_def set_header_def cookie_def\<close>)
qed

lemma latched_next_fn: "latched (res st) \<Longrightarrow> latched (res (next_fn stack err st))"
  using pipeline_res_invariant(1)[where I = latched] latched_res_action by blast

lemma latched_new: "latched (new_response m c origin)"
  by (simp add: latched_def new_response_def)

lemma latched_runPipeline: "latched r \<Longrightarrow> latched (res (runPipeline stack r))"
  using latched_next_fn[of "\<lparr>idx = 0, res = r, invoked = []\<rparr>" stack Undefined]
  by (simp add: runPipeline_def)

lemma at_most_one_response: "length (wire (res (runPipeline stack (new_response m c origin)))) \<le> 1"
proof -
  have "latched (res (runPipeline stack (new_response m c origin)))"
    by (rule latched_runPipeline[OF latched_new])
  then show ?thesis
    by (cases "sent (res (runPipeline stack (new_response m c origin)))") (simp_all add: latched_def)
qed

lemma exhausted_no_error:
  assumes "length stack \<le> idx st" "\<not> truthy err"
  shows "res (next_fn stack err st) =
           (if sent (res st) then res st else json not_found_body (status 404 (res st)))"
  using assms by (subst next_fn.simps) (simp add: isSent_def not_found_body_def)

lemma json_404_clean: "clean r \<Longrightarrow> done404 (json not_found_body (status 404 r))"
  using wire_json[of "status 404 r" not_found_body]
  by (auto simp: clean_def done404_def sent_json status_def is_404_def not_found_body_def)

lemma done404_next_fn: "done404 (res st) \<Longrightarrow> done404 (res (next_fn stack err st))"
  using latch_next_fn[of st stack err] by (simp add: done404_def)

lemma done404_run_handler: "done404 (res st) \<Longrightarrow> done404 (res (snd (run_handler stack acts st)))"
  using latch_run_handler[of st stack acts] by (simp add: done404_def)

lemma pass_through_aux:
  "list_all passes_on stack \<Longrightarrow> \<not> truthy err \<Longrightarrow> clean (res st) \<or> done404 (res st)
     \<Longrightarrow> done404 (res (next_fn stack err st))"
  "list_all passes_on stack \<Longrightarrow> list_all quiet_action acts \<Longrightarrow> clean (res st) \<or> done404 (res st)
     \<Longrightarrow> fst (run_handler stack acts st) = Returned
         \<and> (clean (res (snd (run_handler stack acts st))) \<or> done404 (res (snd (run_handler stack acts st))))
         \<and> (list_ex is_next acts \<longrightarrow> done404 (res (snd (run_handler stack acts st))))"
proof (induct stack err st and stack acts st rule: next_fn_run_handler.induct)
  case (1 stack err st)
  show ?case
  proof (cases "length stack \<le> idx st")
    case True
    then show ?thesis
      using "1.prems"(2,3) exhausted_no_error[OF True "1.prems"(2)] json_404_clean[of "res st"]
      by (auto simp: done404_def clean_def)
  next
    case False
    note inb = this
    show ?thesis
    proof (cases "isErrorHandler (stack ! idx st)")
      case True
      have "done404 (res (next_fn stack Undefined (st\<lparr>idx := idx st + 1\<rparr>)))"
        using "1.hyps"(4)[OF inb "1.prems"(2) True "1.prems"(1)] "1.prems"(3) by simp
      then show ?thesis
        using inb True "1.prems"(2) by (subst next_fn.simps) simp
    next
      case F2: False
      let ?l = "stack ! idx st"
      let ?st1 = "st\<lparr>idx := idx st + 1, invoked := invoked st @ [(idx st, Undefined)]\<rparr>"
      have "?l \<in> set stack" using inb by simp
      with "1.prems"(1) have po: "passes_on ?l" by (simp add: list_all_iff)
      with F2 have q: "list_all quiet_action (handler ?l Undefined)"
        and n: "list_ex is_next (handler ?l Undefined)" by (simp_all add: passes_on_def)
      have ih: "fst (run_handler stack (handler ?l Undefined) ?st1) = Returned
         \<and> done404 (res (snd (run_handler stack (handler ?l Undefined) ?st1)))"
        using "1.hyps"(5)[OF inb "1.prems"(2) F2 "1.prems"(1) q] "1.prems"(3) n by simp
      show ?thesis
        using inb F2 "1.prems"(2) ih
        by (subst next_fn.simps) (auto split: prod.splits outcome.splits)
    qed
  qed
next
  case (2 stack st)
  then show ?case by simp
next
  case (3 stack v as st)
  then show ?case by simp
next
  case (4 stack e as st)
  have d: "done404 (res (next_fn stack e st))"
    using 4(1)[OF 4(3)] 4(4,5) by simp
  then show ?case
    using 4(2)[OF 4(3)] 4(4) done404_run_handler[OF d, of stack as]
    by simp
next
  case (5 stack c as st)
  have "clean (status c (res st)) \<or> done404 (status c (res st))"
    using 5(4) by (auto simp: clean_def done404_def status_def)
  then show ?case using 5 by simp
next
  case (6 stack k v as st)
  have "clean (set_header k v (res st)) \<or> done404 (set_header k v (res st))"
    using 6(4) by (auto simp: clean_def done404_def set_header_def)
  then show ?case using 6 by simp
next
  case (7 stack c as st)
  have "clean (cookie c (res st)) \<or> done404 (cookie c (res st))"
    using 7(4) by (auto simp: clean_def done404_def cookie_def)
  then show ?case using 7 by simp
qed simp_all

lemma exhausted_unsent:
  assumes "length stack \<le> idx st" "\<not> truthy err" "\<not> sent (res st)"
  shows "\<exists>e. wire (res (next_fn stack err st)) = wire (res st) @ [e] \<and> is_404 e"
proof -
  have "res (next_fn stack err st) = json not_found_body (status 404 (res st))"
    using exhausted_no_error[OF assms(1,2)] assms(3) by simp
  moreover have "\<not> sent (status 404 (res st))" using assms(3) by (simp add: status_def)
  ultimately show ?thesis
    using wire_json[of "status 404 (res st)" not_found_body]
    by (auto simp: is_404_def status_def not_found_body_def)
qed

lemma pass_through_run:
  assumes "list_all passes_on stack"
  shows "\<exists>e. wire (res (runPipeline stack (new_response m c origin))) = [e] \<and> is_404 e"
proof -
  have "clean (new_response m c origin)" by (simp add: clean_def new_response_def)
  then have "done404 (res (runPipeline stack (new_response m c origin)))"
    unfolding runPipeline_def
    using pass_through_aux(1)[OF assms, of Undefined "\<lparr>idx = 0, res = new_response m c origin, invoked = []\<rparr>"]
    by simp
  then show ?thesis by (simp add: done404_def)
qed

lemma falsy_is_undefined: "\<not> truthy err \<Longrightarrow> next_fn stack err st = next_fn stack Undefined st"
  by (subst next_fn.simps, subst (2) next_fn.simps) simp

lemma unwind_no_error_handler:
  assumes "list_all (\<lambda>l. \<not> isErrorHandler l) stack" "truthy v"
  shows "res (next_fn stack v st) = renderError v (res st)"
  using assms
proof (induction "length stack - idx st" arbitrary: st)
  case 0
  then show ?case by (subst next_fn.simps) simp
next
  case (Suc n)
  then have inb: "idx st < length stack" by simp
  then have "\<not> isErrorHandler (stack ! idx st)"
    using Suc.prems(1) by (simp add: list_all_length)
  moreover have "res (next_fn stack v (st\<lparr>idx := idx st + 1\<rparr>)) = renderError v (res st)"
    using Suc.hyps(1)[of "st\<lparr>idx := idx st + 1\<rparr>"] Suc.hyps(2) Suc.prems by simp
  ultimately show ?case
    using inb Suc.prems(2) by (subst next_fn.simps) simp
qed

lemma wire_renderError:
  "\<not> sent r \<Longrightarrow> \<exists>e. wire (renderError v r) = wire r @ [e] \<and> is_500 v e"
  using wire_json[of "status 500 r" "server_error_body v"]
  by (auto simp: renderError_def isSent_def status_def is_500_def server_error_body_def)

lemma renderError_sent: "sent r \<Longrightarrow> renderError v r = r"
  by (simp add: renderError_def isSent_def)

lemma sent_renderError: "sent (renderError v r)"
  by (simp add: renderError_def isSent_def sent_json)

lemma skip_while_error:
  "truthy err \<Longrightarrow> idx st + k \<le> length stack
     \<Longrightarrow> \<forall>j<k. \<not> isErrorHandler (stack ! (idx st + j))
     \<Longrightarrow> next_fn stack err st = next_fn stack err (st\<lparr>idx := idx st + k\<rparr>)"
proof (induction k arbitrary: st)
  case 0
  then show ?case by simp
next
  case (Suc k)
  have inb: "idx st < length stack" using Suc.prems(2) by simp
  have ne: "\<not> isErrorHandler (stack ! idx st)" using Suc.prems(3)[rule_format, of 0] by simp
  have step: "next_fn stack err st = next_fn stack err (st\<lparr>idx := idx st + 1\<rparr>)"
    using inb ne Suc.prems(1) by (subst next_fn.simps) simp
  have "\<forall>j<k. \<not> isErrorHandler (stack ! (idx (st\<lparr>idx := idx st + 1\<rparr>) + j))"
    using Suc.prems(3) by (auto dest: spec[of _ "Suc _"])
  then have "next_fn stack err (st\<lparr>idx := idx st + 1\<rparr>)
             = next_fn stack err (st\<lparr>idx := idx st + 1\<rparr>\<lparr>idx := idx (st\<lparr>idx := idx st + 1\<rparr>) + k\<rparr>)"
    using Suc.IH[of "st\<lparr>idx := idx st + 1\<rparr>"] Suc.prems(1,2) by simp
  with step show ?case by simp
qed

lemma skip_error_handlers:
  "\<not> truthy err \<Longrightarrow> idx st + k \<le> length stack
     \<Longrightarrow> \<forall>j<k. isErrorHandler (stack ! (idx st + j))
     \<Longrightarrow> next_fn stack err st = next_fn stack Undefined (st\<lparr>idx := idx st + k\<rparr>)"
proof (induction k arbitrary: st err)
  case 0
  then show ?case using falsy_is_undefined[of err stack st] by simp
next
  case (Suc k)
  have inb: "idx st < length stack" using Suc.prems(2) by simp
  have eh: "isErrorHandler (stack ! idx st)" using Suc.prems(3)[rule_format, of 0] by simp
  have step: "next_fn stack err st = next_fn stack Undefined (st\<lparr>idx := idx st + 1\<rparr>)"
    using inb eh Suc.prems(1) by (subst next_fn.simps) simp
  have "\<forall>j<k. isErrorHandler (stack ! (idx (st\<lparr>idx := idx st + 1\<rparr>) + j))"
    using Suc.prems(3) by (auto dest: spec[of _ "Suc _"])
  then have "next_fn stack Undefined (st\<lparr>idx := idx st + 1\<rparr>)
             = next_fn stack Undefined (st\<lparr>idx := idx st + 1\<rparr>\<lparr>idx := idx (st\<lparr>idx := idx st + 1\<rparr>) + k\<rparr>)"
    using Suc.IH[of Undefined "st\<lparr>idx := idx st + 1\<rparr>"] Suc.prems(2) by simp
  with step show ?case by simp
qed

lemma invoke_error_handler:
  "truthy err \<Longrightarrow> idx st < length stack \<Longrightarrow> isErrorHandler (stack ! idx st)
     \<Longrightarrow> next_fn stack err st =
          (case run_handler stack (handler (stack ! idx st) err)
                  (st\<lparr>idx := idx st + 1, invoked := invoked st @ [(idx st, err)]\<rparr>) of
             (Returned, st') \<Rightarrow> st'
           | (Thrown e, st') \<Rightarrow> next_fn stack e st')"
  by (subst next_fn.simps) simp

lemma proper_calls:
  "list_all (proper_call stack) (invoked st)
     \<Longrightarrow> list_all (proper_call stack) (invoked (next_fn stack err st))"
  "list_all (proper_call stack) (invoked st)
     \<Longrightarrow> list_all (proper_call stack) (invoked (snd (run_handler stack acts st)))"
proof (induct stack err st and stack acts st rule: next_fn_run_handler.induct)
  case (1 stack err st)
  show ?case
    apply (subst next_fn.simps)
    using 1
    by (auto split: prod.splits outcome.splits)
qed simp_all

lemma slice_all:
  "i + k \<le> length xs \<Longrightarrow> list_all P (take k (drop i xs)) = (\<forall>j<k. P (xs ! (i + j)))"
  by (simp add: list_all_length)





subsection \<open>The path matcher on literal patterns\<close>





subsection \<open>The client's listeners and requests\<close>

lemma reject_each_distinct:
  "distinct ids \<Longrightarrow> set ids \<subseteq> set (pending c) \<Longrightarrow>
     reject_each msg ids c =
       c\<lparr>pending := filter (\<lambda>p. p \<notin> set ids) (pending c),
         effects := effects c @ rejections msg ids\<rparr>"
proof (induction ids arbitrary: c)
  case Nil
  then show ?case by (simp add: rejections_def)
next
  case (Cons rid ids)
  let ?c1 = "(clearPending rid c)\<lparr>effects := effects (clearPending rid c) @ [RejectPending rid msg]\<rparr>"
  have c1: "?c1 = c\<lparr>pending := removeAll rid (pending c),
                     effects := effects c @ [ClearTimeout (RequestTimer rid), RejectPending rid msg]\<rparr>"
    using Cons.prems by (simp add: clearPending_def Let_def)
  have sub: "set ids \<subseteq> set (pending ?c1)"
    using Cons.prems by (auto simp: c1)
  have "reject_each msg (rid # ids) c = reject_each msg ids ?c1" by simp
  also have "\<dots> = ?c1\<lparr>pending := filter (\<lambda>p. p \<notin> set ids) (pending ?c1),
                         effects := effects ?c1 @ rejections msg ids\<rparr>"
    using Cons.IH[OF _ sub] Cons.prems by simp
  also have "\<dots> = c\<lparr>pending := filter (\<lambda>p. p \<notin> set (rid # ids)) (pending c),
         effects := effects c @ rejections msg (rid # ids)\<rparr>"
  proof -
    have "filter (\<lambda>x. rid \<noteq> x \<and> x \<notin> set ids) (pending c)
          = filter (\<lambda>p. p \<noteq> rid \<and> p \<notin> set ids) (pending c)"
      by (rule filter_cong) auto
    then show ?thesis
      by (simp add: c1 rejections_def removeAll_filter_not_eq)
  qed
  finally show ?case .
qed

lemma rejectAllPending_eq:
  "distinct (pending c) \<Longrightarrow>
     rejectAllPending msg c = c\<lparr>pending := [], effects := effects c @ rejections msg (pending c)\<rparr>"
  using reject_each_distinct[of "pending c" c msg]
  by (simp add: rejectAllPending_def)

lemma handleError_eq:
  "distinct (pending c) \<Longrightarrow>
     handleError c = c\<lparr>pending := [],
                       effects := effects c @ [Emit EvError] @ rejections ''Socket error'' (pending c)\<rparr>"
  using rejectAllPending_eq[of "emit EvError c" "''Socket error''"]
  by (simp add: handleError_def emit_def)

lemma handleClose_eq:
  "distinct (pending c) \<Longrightarrow> socketEnabled c \<Longrightarrow> opt_wsFactory opts \<noteq> None \<Longrightarrow>
     handleClose opts c =
       c\<lparr>pending := [],
         reconnectAttempts := reconnectAttempts c + 1,
         effects := effects c @ [Emit EvClose] @ rejections ''Socket closed'' (pending c)
            @ [SetTimeout ReconnectTimer
                 (min (opt_reconnectInterval opts * (reconnectAttempts c + 1))
                      (opt_maxReconnectInterval opts))]\<rparr>"
  using rejectAllPending_eq[of "emit EvClose c" "''Socket closed''"]
  by (simp add: handleClose_def emit_def scheduleReconnect_def Let_def)

lemma rejections_reject_all:
  "rid \<in> set ids \<Longrightarrow> RejectPending rid msg \<in> set (rejections msg ids)"
  by (induction ids) (auto simp: rejections_def)

lemma reconnect_timers_append: "reconnect_timers (xs @ ys) = reconnect_timers xs @ reconnect_timers ys"
  by (simp add: reconnect_timers_def List.map_filter_def)

lemma reconnect_timers_Nil: "reconnect_timers [] = []"
  by (simp add: reconnect_timers_def List.map_filter_simps)

lemma reconnect_timers_Cons:
  "reconnect_timers (e # es) =
     (case e of SetTimeout ReconnectTimer d \<Rightarrow> d # reconnect_timers es | _ \<Rightarrow> reconnect_timers es)"
  by (simp add: reconnect_timers_def List.map_filter_simps split: effect.splits timer.splits)

lemma reconnect_timers_rejections: "reconnect_timers (rejections msg ids) = []"
  by (induction ids) (simp_all add: rejections_def reconnect_timers_Cons reconnect_timers_Nil)








subsection \<open>The properties of the specification\<close>

text \<open>
  C1.  When \<open>next\<close> is called with the stack exhausted, no error pending and nothing
  sent, the engine writes exactly one 404 response; when a response was already sent it
  writes nothing.  So a request whose handlers all pass on without sending ends with
  exactly one response, the 404, and no run of the engine ever writes more than one
  response (a second arrival at the end of the stack finds the latch set).
\<close>

theorem not_found_exactly_once:
  "(length stack \<le> idx st \<and> \<not> truthy err \<and> \<not> sent (res st) \<longrightarrow>
      (\<exists>e. wire (res (next_fn stack err st)) = wire (res st) @ [e] \<and> is_404 e))
   \<and> (length stack \<le> idx st \<and> \<not> truthy err \<and> sent (res st) \<longrightarrow>
        res (next_fn stack err st) = res st)
   \<and> (list_all passes_on stack \<longrightarrow>
        (\<exists>e. wire (res (runPipeline stack (new_response m c origin))) = [e] \<and> is_404 e))
   \<and> length (wire (res (runPipeline stack (new_response m c origin)))) \<le> 1"
  using exhausted_unsent[of stack st err] exhausted_no_error[of stack st err]
        pass_through_run[of stack m c origin] at_most_one_response[of stack m c origin]
  by simp

theorem not_found_exactly_once_witness:
  "list_all passes_on [logger, on_error]
   \<and> (\<exists>e. wire (res (runPipeline [logger, on_error] (new_response HttpMode default_cors ''*''))) = [e]
          \<and> is_404 e)
   \<and> length [logger, on_error] \<le> idx \<lparr>idx = 2, res = new_response HttpMode default_cors ''*'', invoked = []\<rparr>
   \<and> \<not> truthy Undefined
   \<and> \<not> sent (res \<lparr>idx = 2, res = new_response HttpMode default_cors ''*'', invoked = []\<rparr>)
   \<and> (\<exists>e. wire (res (next_fn [logger, on_error] Undefined
               \<lparr>idx = 2, res = new_response HttpMode default_cors ''*'', invoked = []\<rparr>)) = [e] \<and> is_404 e)
   \<and> sent (res \<lparr>idx = 2, res = send (Str ''ok'') (new_response HttpMode default_cors ''*''), invoked = []\<rparr>)
   \<and> res (next_fn [logger, on_error] Undefined
          \<lparr>idx = 2, res = send (Str ''ok'') (new_response HttpMode default_cors ''*''), invoked = []\<rparr>)
       = send (Str ''ok'') (new_response HttpMode default_cors ''*'')"
proof -
  have p: "list_all passes_on [logger, on_error]"
    by (simp add: passes_on_def logger_def on_error_def)
  have u: "\<not> sent (new_response HttpMode default_cors ''*'')" "wire (new_response HttpMode default_cors ''*'') = []"
    by (simp_all add: new_response_def)
  show ?thesis
    using p u sent_send[of "Str ''ok''" "new_response HttpMode default_cors ''*''"]
      not_found_exactly_once[of "[logger, on_error]"
        "\<lparr>idx = 2, res = new_response HttpMode default_cors ''*'', invoked = []\<rparr>" Undefined HttpMode default_cors "''*''"]
      not_found_exactly_once[of "[logger, on_error]"
        "\<lparr>idx = 2, res = send (Str ''ok'') (new_response HttpMode default_cors ''*''), invoked = []\<rparr>" Undefined HttpMode default_cors "''*''"]
    by simp
qed

text \<open>
  C2 (counterexample).  A handler that sends a response and then throws, with no error
  handler registered: the thrown error is caught, but \<open>renderError\<close> finds the response
  sent and writes nothing, so the only response is the handler's own 200.
\<close>

theorem thrown_after_send_no_500:
  "list_all (\<lambda>l. \<not> isErrorHandler l) [send_then_throw]
   \<and> fst (run_handler [send_then_throw] (handler send_then_throw Undefined)
            \<lparr>idx = 1, res = new_response HttpMode default_cors ''*'', invoked = [(0, Undefined)]\<rparr>)
       = Thrown (ErrorObj ''boom'')
   \<and> map emission_status
         (wire (res (runPipeline [send_then_throw] (new_response HttpMode default_cors ''*''))))
       = [Some 200]"
proof -
  let ?r0 = "new_response HttpMode default_cors ''*''"
  have u: "\<not> sent ?r0" "wire ?r0 = []" "statusCode ?r0 = 200" by (simp_all add: new_response_def)
  have "res (runPipeline [send_then_throw] ?r0) = send (Str ''ok'') ?r0"
    unfolding runPipeline_def
    by (simp add: next_fn.simps send_then_throw_def renderError_sent sent_send)
  then show ?thesis
    using wire_send[OF u(1), of "Str ''ok''"] u
    by (auto simp: send_then_throw_def)
qed

text \<open>
  C2 (amended).  With no error handler in the stack, when a handler invoked on the
  success path throws a truthy value \<open>v\<close> (any \<open>Error\<close> object is truthy), the engine
  catches it and skips every remaining layer.  If nothing was sent by then, it writes
  exactly one response, a 500 whose JSON body has \<open>details\<close> equal to the message of
  the thrown \<open>Error\<close> (the thrown value itself when it is not an \<open>Error\<close>); if a
  response was already sent, it writes nothing.  Either way the response is sent
  afterwards, and nothing that runs later writes to the transport again.
\<close>

theorem thrown_error_gets_500:
  assumes "list_all (\<lambda>l. \<not> isErrorHandler l) stack"
    and "idx st < length stack"
    and "\<not> truthy err"
    and "run_handler stack (handler (stack ! idx st) Undefined)
           (st\<lparr>idx := idx st + 1, invoked := invoked st @ [(idx st, Undefined)]\<rparr>) = (Thrown v, st')"
    and "truthy v"
  shows "(\<not> sent (res st') \<longrightarrow>
            (\<exists>e. wire (res (next_fn stack err st)) = wire (res st') @ [e] \<and> is_500 v e))
         \<and> (sent (res st') \<longrightarrow> wire (res (next_fn stack err st)) = wire (res st'))
         \<and> sent (res (next_fn stack err st))
         \<and> (\<forall>e'. wire (res (next_fn stack e' (next_fn stack err st))) = wire (res (next_fn stack err st)))
         \<and> (\<forall>acts. wire (res (snd (run_handler stack acts (next_fn stack err st))))
                     = wire (res (next_fn stack err st)))"
proof -
  have "\<not> isErrorHandler (stack ! idx st)"
    using assms(1,2) by (simp add: list_all_length)
  then have "next_fn stack err st = next_fn stack v st'"
    using assms(2,3,4) by (subst next_fn.simps) simp
  then have r: "res (next_fn stack err st) = renderError v (res st')"
    using unwind_no_error_handler[OF assms(1,5)] by simp
  have s: "sent (res (next_fn stack err st))" by (simp add: r sent_renderError)
  show ?thesis
    using r s wire_renderError[of "res st'" v] renderError_sent[of "res st'" v]
      latch_next_fn[OF s] latch_run_handler[OF s]
    by auto
qed

theorem thrown_error_gets_500_witness:
  "list_all (\<lambda>l. \<not> isErrorHandler l) [logger, thrower, responder]
   \<and> truthy (ErrorObj ''boom'')
   \<and> (\<exists>e. wire (res (runPipeline [logger, thrower, responder] (new_response HttpMode default_cors ''*''))) = [e]
          \<and> is_500 (ErrorObj ''boom'') e)"
proof -
  let ?r0 = "new_response HttpMode default_cors ''*''"
  let ?stack = "[logger, thrower, responder]"
  let ?st = "\<lparr>idx = 1, res = set_header ''X-Seen'' ''1'' ?r0, invoked = [(0, Undefined)]\<rparr>"
  let ?st' = "\<lparr>idx = 2, res = status 201 (set_header ''X-Seen'' ''1'' ?r0),
               invoked = [(0, Undefined), (1, Undefined)]\<rparr>"
  have n: "list_all (\<lambda>l. \<not> isErrorHandler l) ?stack"
    by (simp add: logger_def thrower_def responder_def)
  have run: "runPipeline ?stack ?r0 = next_fn ?stack Undefined ?st"
    unfolding runPipeline_def
    by (subst next_fn.simps) (simp add: logger_def)
  have thr: "run_handler ?stack (handler (?stack ! idx ?st) Undefined)
               (?st\<lparr>idx := idx ?st + 1, invoked := invoked ?st @ [(idx ?st, Undefined)]\<rparr>)
             = (Thrown (ErrorObj ''boom''), ?st')"
    by (simp add: thrower_def)
  have u: "\<not> sent (res ?st')" "wire (res ?st') = []"
    by (simp_all add: status_def set_header_def new_response_def)
  show ?thesis
    using n u run thrown_error_gets_500[OF n _ _ thr, of Undefined]
    by simp
qed

text \<open>
  C3.  While an error is pending, \<open>next\<close> passes over the layers that are not error
  handlers without invoking them (the state that reaches the next layer differs only in
  the index, and no invocation is recorded), and the first error handler it reaches is
  invoked with that error.  While no error is pending, error handlers are passed over in
  the same way.  In every run, a layer is invoked with a pending error exactly when it is
  an error handler.
\<close>

theorem skip_until_error_handler:
  "(truthy err \<and> idx st + k < length stack
      \<and> list_all (\<lambda>l. \<not> isErrorHandler l) (take k (drop (idx st) stack))
      \<and> isErrorHandler (stack ! (idx st + k))
     \<longrightarrow> next_fn stack err st =
          (case run_handler stack (handler (stack ! (idx st + k)) err)
                  (st\<lparr>idx := idx st + k + 1, invoked := invoked st @ [(idx st + k, err)]\<rparr>) of
             (Returned, st') \<Rightarrow> st'
           | (Thrown e, st') \<Rightarrow> next_fn stack e st'))
   \<and> (truthy err \<and> idx st + k \<le> length stack
        \<and> list_all (\<lambda>l. \<not> isErrorHandler l) (take k (drop (idx st) stack))
       \<longrightarrow> next_fn stack err st = next_fn stack err (st\<lparr>idx := idx st + k\<rparr>))
   \<and> (\<not> truthy err \<and> idx st + k \<le> length stack
        \<and> list_all isErrorHandler (take k (drop (idx st) stack))
       \<longrightarrow> next_fn stack err st = next_fn stack Undefined (st\<lparr>idx := idx st + k\<rparr>))
   \<and> (list_all (proper_call stack) (invoked st)
       \<longrightarrow> list_all (proper_call stack) (invoked (next_fn stack err st)))"
proof (intro conjI impI)
  assume h: "truthy err \<and> idx st + k < length stack
      \<and> list_all (\<lambda>l. \<not> isErrorHandler l) (take k (drop (idx st) stack))
      \<and> isErrorHandler (stack ! (idx st + k))"
  then have "\<forall>j<k. \<not> isErrorHandler (stack ! (idx st + j))"
    using slice_all[of "idx st" k stack "\<lambda>l. \<not> isErrorHandler l"] by simp
  then have "next_fn stack err st = next_fn stack err (st\<lparr>idx := idx st + k\<rparr>)"
    using skip_while_error[of err st k stack] h by simp
  also have "\<dots> = (case run_handler stack (handler (stack ! (idx st + k)) err)
                  (st\<lparr>idx := idx st + k + 1, invoked := invoked st @ [(idx st + k, err)]\<rparr>) of
             (Returned, st') \<Rightarrow> st'
           | (Thrown e, st') \<Rightarrow> next_fn stack e st')"
    using invoke_error_handler[of err "st\<lparr>idx := idx st + k\<rparr>" stack] h by simp
  finally show "next_fn stack err st =
          (case run_handler stack (handler (stack ! (idx st + k)) err)
                  (st\<lparr>idx := idx st + k + 1, invoked := invoked st @ [(idx st + k, err)]\<rparr>) of
             (Returned, st') \<Rightarrow> st'
           | (Thrown e, st') \<Rightarrow> next_fn stack e st')" .
next
  assume h: "truthy err \<and> idx st + k \<le> length stack
        \<and> list_all (\<lambda>l. \<not> isErrorHandler l) (take k (drop (idx st) stack))"
  then have "\<forall>j<k. \<not> isErrorHandler (stack ! (idx st + j))"
    using slice_all[of "idx st" k stack "\<lambda>l. \<not> isErrorHandler l"] by simp
  then show "next_fn stack err st = next_fn stack err (st\<lparr>idx := idx st + k\<rparr>)"
    using skip_while_error[of err st k stack] h by simp
next
  assume h: "\<not> truthy err \<and> idx st + k \<le> length stack
        \<and> list_all isErrorHandler (take k (drop (idx st) stack))"
  then have "\<forall>j<k. isErrorHandler (stack ! (idx st + j))"
    using slice_all[of "idx st" k stack isErrorHandler] by simp
  then show "next_fn stack err st = next_fn stack Undefined (st\<lparr>idx := idx st + k\<rparr>)"
    using skip_error_handlers[of err st k stack] h by simp
next
  assume "list_all (proper_call stack) (invoked st)"
  then show "list_all (proper_call stack) (invoked (next_fn stack err st))"
    by (rule proper_calls(1))
qed

theorem skip_until_error_handler_witness:
  "truthy (ErrorObj ''boom'')
   \<and> list_all (\<lambda>l. \<not> isErrorHandler l) (take 2 (drop 1 [thrower, logger, responder, on_error]))
   \<and> isErrorHandler ([thrower, logger, responder, on_error] ! 3)
   \<and> invoked (runPipeline [thrower, logger, responder, on_error] (new_response HttpMode default_cors ''*''))
       = [(0, Undefined), (3, ErrorObj ''boom'')]
   \<and> list_all isErrorHandler (take 1 (drop 0 [on_error, responder]))
   \<and> invoked (runPipeline [on_error, responder] (new_response HttpMode default_cors ''*''))
       = [(1, Undefined)]
   \<and> list_all (proper_call [thrower, logger, responder, on_error])
        (invoked (runPipeline [thrower, logger, responder, on_error] (new_response HttpMode default_cors ''*'')))"
proof -
  let ?r0 = "new_response HttpMode default_cors ''*''"
  let ?A = "[thrower, logger, responder, on_error]"
  let ?B = "[on_error, responder]"
  let ?st1 = "\<lparr>idx = 1, res = status 201 ?r0, invoked = [(0, Undefined)]\<rparr>"
  let ?st0 = "\<lparr>idx = 0, res = ?r0, invoked = []\<rparr>"
  have eh: "\<not> isErrorHandler thrower" "\<not> isErrorHandler logger" "\<not> isErrorHandler responder"
    "isErrorHandler on_error"
    by (simp_all add: thrower_def logger_def responder_def on_error_def)
  have runA: "runPipeline ?A ?r0 = next_fn ?A (ErrorObj ''boom'') ?st1"
    unfolding runPipeline_def
    by (subst next_fn.simps) (simp add: eh, simp add: thrower_def)
  have "next_fn ?A (ErrorObj ''boom'') ?st1 =
          (case run_handler ?A (handler (?A ! (idx ?st1 + 2)) (ErrorObj ''boom''))
                  (?st1\<lparr>idx := idx ?st1 + 2 + 1, invoked := invoked ?st1 @ [(idx ?st1 + 2, ErrorObj ''boom'')]\<rparr>) of
             (Returned, st') \<Rightarrow> st'
           | (Thrown e, st') \<Rightarrow> next_fn ?A e st')"
    using skip_until_error_handler[of "ErrorObj ''boom''" ?st1 2 ?A] eh by simp
  then have A: "invoked (runPipeline ?A ?r0) = [(0, Undefined), (3, ErrorObj ''boom'')]"
    unfolding runA by (simp add: on_error_def)
  have "next_fn ?B Undefined ?st0 = next_fn ?B Undefined (?st0\<lparr>idx := idx ?st0 + 1\<rparr>)"
    using skip_until_error_handler[of Undefined ?st0 1 ?B] eh by simp
  then have B: "invoked (runPipeline ?B ?r0) = [(1, Undefined)]"
    unfolding runPipeline_def
    by (simp add: next_fn.simps eh responder_def)
  show ?thesis
    using A B eh by simp
qed

text \<open>
  C4.  A second \<open>send\<close> after a completed \<open>send\<close> changes nothing, whatever the two
  payloads: the response, and with it everything written to the transport, is what the
  first \<open>send\<close> left.  The \<open>sent\<close> flag is set by \<open>send\<close> and no later call on the
  response (\<open>status\<close>, \<open>set\<close>, \<open>cookie\<close>, \<open>send\<close>, \<open>json\<close>, \<open>end\<close>) clears it or
  writes to the transport again.
\<close>

theorem send_twice_is_noop:
  "send p2 (send p1 r) = send p1 r
   \<and> sent (send p1 r)
   \<and> sent (res_action a (send p1 r))
   \<and> wire (res_action a (send p1 r)) = wire (send p1 r)"
  using res_action_when_sent[of "send p1 r" a]
  by (simp add: send_when_sent sent_send)

lemma lower_content_type: "toLowerCase ''content-type'' = ''content-type''"
  by (simp add: toLowerCase_def lower_char_def)

theorem send_twice_is_noop_witness:
  "wire (send (Str ''second'') (send (Str ''first'') (new_response HttpMode default_cors ''*'')))
     = [HttpOut \<lparr>out_statusCode = 200,
                 out_headers =
                   [(''content-type'', ''text/plain; charset=utf-8''),
                    (''access-control-allow-origin'', ''*''),
                    (''access-control-allow-credentials'', ''true''),
                    (''access-control-allow-methods'', ''GET, POST, PUT, PATCH, DELETE, OPTIONS''),
                    (''access-control-allow-headers'', ''Content-Type, Authorization, X-Requested-With''),
                    (''access-control-expose-headers'', ''''),
                    (''access-control-max-age'', ''600'')],
                 out_set_cookie = None,
                 out_body = EndString ''first''\<rparr>]"
proof -
  let ?r = "new_response HttpMode default_cors ''*''"
  have same: "send (Str ''second'') (send (Str ''first'') ?r) = send (Str ''first'') ?r"
    using send_twice_is_noop by blast
  have r': "default_text_type (Str ''first'') (?r\<lparr>sent := True\<rparr>)
             = ?r\<lparr>sent := True, headers := [(''content-type'', ''text/plain; charset=utf-8'')]\<rparr>"
    by (simp add: default_text_type_def no_content_type_def obj_get_def new_response_def
        set_header_def lower_content_type)
  show ?thesis
    unfolding same
    by (simp add: send_def r' Let_def)
       (simp add: new_response_def default_cors_def http_write_def buildHeaders_def
          no_content_type_def obj_get_def digit_char_def)
qed



text \<open>
  C6 (counterexample).  An \<open>error\<close> event on a connected client that is not closed,
  with one request pending: the request is rejected, but no reconnect timer is set and
  the attempt counter stays where it was.  \<open>handleError\<close> does not call
  \<open>scheduleReconnect\<close>; only \<open>handleClose\<close> does.
\<close>

theorem error_event_schedules_no_reconnect:
  "socketEnabled client0 \<and> \<not> closeRequested client0 \<and> opt_wsFactory client_opts0 \<noteq> None
   \<and> effects (handleError client0)
       = [Emit EvError, ClearTimeout (RequestTimer ''r1''), RejectPending ''r1'' ''Socket error'']
   \<and> reconnectAttempts (handleError client0) = 0"
  by (simp add: client0_def client_opts0_def handleError_def emit_def rejectAllPending_def
      clearPending_def)

text \<open>
  C6 (amended).  On an \<open>error\<close> event every pending request is rejected
  (\<open>Socket error\<close>), no reconnect is scheduled and the attempt counter is unchanged.  On
  a \<open>close\<close> event of a client that is not closed (sockets enabled, a factory
  configured) every pending request is rejected (\<open>Socket closed\<close>), the attempt
  counter is incremented, and exactly one reconnect timer is set, with the delay
  \<open>min (reconnectInterval * attempts) maxReconnectInterval\<close> for the incremented
  counter.  An \<open>open\<close> event resets the counter to zero.  (The keys of the pending map
  are distinct, as the keys of a \<open>Map\<close> are.)
\<close>

theorem close_rejects_and_schedules_reconnect:
  "distinct (pending c) \<longrightarrow>
     (pending (handleError c) = []
      \<and> (\<forall>rid \<in> set (pending c). RejectPending rid ''Socket error'' \<in> set (effects (handleError c)))
      \<and> reconnectAttempts (handleError c) = reconnectAttempts c
      \<and> reconnect_timers (effects (handleError c)) = reconnect_timers (effects c))
   \<and> (socketEnabled c \<and> opt_wsFactory opts \<noteq> None \<longrightarrow>
        pending (handleClose opts c) = []
        \<and> (\<forall>rid \<in> set (pending c). RejectPending rid ''Socket closed'' \<in> set (effects (handleClose opts c)))
        \<and> reconnectAttempts (handleClose opts c) = reconnectAttempts c + 1
        \<and> reconnect_timers (effects (handleClose opts c)) =
             reconnect_timers (effects c)
               @ [min (opt_reconnectInterval opts * (reconnectAttempts c + 1))
                      (opt_maxReconnectInterval opts)])
   \<and> reconnectAttempts (handleOpen c) = 0"
proof (intro impI conjI)
  assume d: "distinct (pending c)"
  show "pending (handleError c) = []" by (simp add: handleError_eq[OF d])
  show "\<forall>rid \<in> set (pending c). RejectPending rid ''Socket error'' \<in> set (effects (handleError c))"
    by (simp add: handleError_eq[OF d] rejections_reject_all)
  show "reconnectAttempts (handleError c) = reconnectAttempts c" by (simp add: handleError_eq[OF d])
  show "reconnect_timers (effects (handleError c)) = reconnect_timers (effects c)"
    by (simp add: handleError_eq[OF d] reconnect_timers_append reconnect_timers_rejections
        reconnect_timers_Cons reconnect_timers_Nil)
  show "reconnectAttempts (handleOpen c) = 0"
    by (simp add: handleOpen_def flushQueue_def emit_def)
next
  assume d: "distinct (pending c)" and e: "socketEnabled c \<and> opt_wsFactory opts \<noteq> None"
  note eq = handleClose_eq[OF d conjunct1[OF e] conjunct2[OF e]]
  show "pending (handleClose opts c) = []" by (simp add: eq)
  show "\<forall>rid \<in> set (pending c). RejectPending rid ''Socket closed'' \<in> set (effects (handleClose opts c))"
    by (simp add: eq rejections_reject_all)
  show "reconnectAttempts (handleClose opts c) = reconnectAttempts c + 1" by (simp add: eq)
  show "reconnect_timers (effects (handleClose opts c)) =
             reconnect_timers (effects c)
               @ [min (opt_reconnectInterval opts * (reconnectAttempts c + 1))
                      (opt_maxReconnectInterval opts)]"
    by (simp add: eq reconnect_timers_append reconnect_timers_rejections
        reconnect_timers_Cons reconnect_timers_Nil)
qed

theorem close_rejects_and_schedules_reconnect_witness:
  "distinct (pending client0) \<and> socketEnabled client0 \<and> opt_wsFactory client_opts0 \<noteq> None
   \<and> pending (handleClose client_opts0 client0) = []
   \<and> RejectPending ''r1'' ''Socket closed'' \<in> set (effects (handleClose client_opts0 client0))
   \<and> reconnect_timers (effects (handleClose client_opts0 client0)) = [1000]
   \<and> reconnect_timers (effects (handleClose client_opts0 (client0\<lparr>reconnectAttempts := 20\<rparr>))) = [15000]
   \<and> reconnectAttempts (handleClose client_opts0 (client0\<lparr>reconnectAttempts := 20\<rparr>)) = 21
   \<and> reconnect_timers (effects (handleError client0)) = []"
proof -
  have h: "distinct (pending client0)" "socketEnabled client0" "opt_wsFactory client_opts0 \<noteq> None"
    "distinct (pending (client0\<lparr>reconnectAttempts := 20\<rparr>))"
    "socketEnabled (client0\<lparr>reconnectAttempts := 20\<rparr>)"
    by (simp_all add: client0_def client_opts0_def)
  have v: "pending client0 = [''r1'']" "effects client0 = []" "reconnectAttempts client0 = 0"
    "opt_reconnectInterval client_opts0 = 1000" "opt_maxReconnectInterval client_opts0 = 15000"
    by (simp_all add: client0_def client_opts0_def)
  show ?thesis
    using h v close_rejects_and_schedules_reconnect[of client0 client_opts0]
      close_rejects_and_schedules_reconnect[of "client0\<lparr>reconnectAttempts := 20\<rparr>" client_opts0]
    by (simp add: reconnect_timers_Nil)
qed

text \<open>
  C7 (the code at the failing input).  A \<open>FormData\<close> with two string entries of the
  same name, the first one empty: \<open>fields[key]\<close> is the falsy empty string when the
  second entry arrives, so the second value replaces the first instead of joining it in
  an array.  The server receives \<open>{tag: 'x'}\<close>; the entries' field map is
  \<open>{tag: ['', 'x']}\<close>.
\<close>

theorem multipart_empty_first_value_lost:
  "nb_body (normalizeBodyPayload dec (serializeBodyForSocket enc
      (BodyFormData [(''tag'', FString []), (''tag'', FString ''x'')])))
     = Fields [(''tag'', One ''x'')]
   \<and> expected_fields [(''tag'', FString []), (''tag'', FString ''x'')]
       = [(''tag'', Many [[], ''x''])]"
  by (simp add: normalizeBodyPayload_def serializeBodyForSocket_def serializeFormData_def
      add_field_def obj_get_def expected_fields_def convertSerializedFiles_def)




text \<open>
  C9.  Whatever the configured allow-list (a non-empty array included), an upgrade
  request without an Origin header passes the origin check, and is accepted when its
  path is the socket path; the connection is destroyed for origin reasons only when an
  Origin header is present and is not allow-listed.
\<close>

theorem upgrade_absent_origin_accepted:
  "isOriginAllowed None allowed
   \<and> upgrade socketPath allowed socketPath None = Upgraded
   \<and> upgrade socketPath allowed pathname None \<noteq> DestroyedOrigin
   \<and> (upgrade socketPath allowed pathname origin = DestroyedOrigin
        \<longrightarrow> (\<exists>o'. origin = Some o' \<and> \<not> origin_listed o' allowed))"
  by (cases allowed; cases origin)
     (auto simp: isOriginAllowed_def upgrade_def split: if_splits)

theorem upgrade_absent_origin_accepted_witness:
  "upgrade ''/sockress'' (OriginList [''https://y.com'']) ''/sockress'' None = Upgraded
   \<and> upgrade ''/sockress'' (OriginList [''https://y.com'']) ''/sockress''
        (Some ''https://x.com'') = DestroyedOrigin
   \<and> (\<exists>o'. Some ''https://x.com'' = Some o'
          \<and> \<not> origin_listed o' (OriginList [''https://y.com'']))"
  using upgrade_absent_origin_accepted
    [of "OriginList [''https://y.com'']" "''/sockress''" "''/sockress''" "Some ''https://x.com''"]
  by (simp add: upgrade_def isOriginAllowed_def)



end
